theory Spec2Isabelle
  imports Complex_Main "HOL-Library.Log_Nat"
begin

section \<open>Python values used by the preprocessing package\<close>

subsection \<open>Exceptions\<close>

text \<open>
  The exceptions that the modelled code can raise. The handlers of the source distinguish
  \<open>ValueError\<close> and \<open>IndexError\<close> (caught per line in \<open>convert_min_to_txt\<close>) from every
  other \<open>Exception\<close> (caught per file).
\<close>

datatype py_exc =
  ValueError | IndexError | TypeError | OverflowError | ZeroDivisionError | OSError

subsection \<open>Strings\<close>

text \<open>
  Strings are lists of characters; the model covers ASCII text. \<open>str.strip()\<close> removes
  the characters for which \<open>str.isspace()\<close> holds: tab, line feed, vertical tab, form
  feed, carriage return, the separators 0x1C to 0x1F and the space.
\<close>

definition newline :: char where
  "newline = CHR 0x0A"

definition carriage_return :: char where
  "carriage_return = CHR 0x0D"

definition backslash :: char where
  "backslash = CHR 0x5C"

definition isspace :: "char \<Rightarrow> bool" where
  "isspace c = (of_char c \<in> {9, 10, 11, 12, 13, 28, 29, 30, 31, 32 :: nat})"

definition lstrip :: "string \<Rightarrow> string" where
  "lstrip s = dropWhile isspace s"

definition rstrip :: "string \<Rightarrow> string" where
  "rstrip s = rev (dropWhile isspace (rev s))"

definition strip :: "string \<Rightarrow> string" where
  "strip s = rstrip (lstrip s)"

text \<open>
  \<open>int(s)\<close> and \<open>float(s)\<close> ignore surrounding ASCII whitespace only: tab, line feed,
  vertical tab, form feed, carriage return and space. The separators 0x1C to 0x1F,
  which \<open>str.strip()\<close> removes, make them raise \<open>ValueError\<close>.
\<close>

definition is_ascii_space :: "char \<Rightarrow> bool" where
  "is_ascii_space c = (of_char c \<in> {9, 10, 11, 12, 13, 32 :: nat})"

definition strip_ascii :: "string \<Rightarrow> string" where
  "strip_ascii s = rev (dropWhile is_ascii_space (rev (dropWhile is_ascii_space s)))"

text \<open>\<open>s.split(c)\<close> with an explicit one-character separator: always at least one field.\<close>

fun split_on :: "char \<Rightarrow> string \<Rightarrow> string list" where
  "split_on c [] = [[]]"
| "split_on c (x # xs) =
     (if x = c then [] # split_on c xs
      else (case split_on c xs of
              [] \<Rightarrow> [[x]]
            | f # fs \<Rightarrow> (x # f) # fs))"

text \<open>\<open>s.split()\<close> without a separator: runs of whitespace separate, no empty field.\<close>

fun split_ws_acc :: "string \<Rightarrow> string \<Rightarrow> string list" where
  "split_ws_acc cur [] = (if cur = [] then [] else [rev cur])"
| "split_ws_acc cur (x # xs) =
     (if isspace x then (if cur = [] then split_ws_acc [] xs else rev cur # split_ws_acc [] xs)
      else split_ws_acc (x # cur) xs)"

definition split_ws :: "string \<Rightarrow> string list" where
  "split_ws s = split_ws_acc [] s"

definition endswith :: "string \<Rightarrow> string \<Rightarrow> bool" where
  "endswith s suf = (length suf \<le> length s \<and> drop (length s - length suf) s = suf)"

fun startswith :: "string \<Rightarrow> string \<Rightarrow> bool" where
  "startswith s [] = True"
| "startswith [] (p # ps) = False"
| "startswith (c # cs) (p # ps) = (c = p \<and> startswith cs ps)"

text \<open>\<open>sub in s\<close> for strings.\<close>

fun contains :: "string \<Rightarrow> string \<Rightarrow> bool" where
  "contains [] sub = (sub = [])"
| "contains (c # cs) sub = (startswith (c # cs) sub \<or> contains cs sub)"

definition lower_char :: "char \<Rightarrow> char" where
  "lower_char c =
     (let n = (of_char c :: nat) in if 65 \<le> n \<and> n \<le> 90 then char_of (n + 32) else c)"

definition lower :: "string \<Rightarrow> string" where
  "lower s = map lower_char s"

subsection \<open>Integers: \<open>int(s)\<close> and \<open>str(n)\<close>\<close>

definition is_digit :: "char \<Rightarrow> bool" where
  "is_digit c = (48 \<le> (of_char c :: nat) \<and> (of_char c :: nat) \<le> 57)"

definition digit_val :: "char \<Rightarrow> nat" where
  "digit_val c = of_char c - 48"

text \<open>
  A digit part is a non-empty run of decimal digits in which single underscores may
  stand between two digits. \<open>digit_chars after_digit s\<close> returns the digits without the
  underscores, \<open>None\<close> when \<open>s\<close> is not a digit part.
\<close>

fun digit_chars :: "bool \<Rightarrow> string \<Rightarrow> string option" where
  "digit_chars after_digit [] = (if after_digit then Some [] else None)"
| "digit_chars after_digit (c # cs) =
     (if is_digit c then map_option ((#) c) (digit_chars True cs)
      else if c = CHR ''_'' \<and> after_digit \<and> cs \<noteq> [] \<and> is_digit (hd cs)
        then digit_chars False cs
      else None)"

definition digits_value :: "string \<Rightarrow> nat" where
  "digits_value ds = foldl (\<lambda>acc c. 10 * acc + digit_val c) 0 ds"

definition digit_part :: "string \<Rightarrow> nat option" where
  "digit_part s = map_option digits_value (digit_chars False s)"

text \<open>
  \<open>int(s)\<close> in base ten: surrounding ASCII whitespace is ignored, one sign is allowed, the
  rest is a digit part. \<open>None\<close> stands for the \<open>ValueError\<close> of the source.
\<close>

definition py_int :: "string \<Rightarrow> int option" where
  "py_int s =
     (case strip_ascii s of
        [] \<Rightarrow> None
      | c # cs \<Rightarrow>
          if c = CHR ''-'' then map_option (\<lambda>n. - int n) (digit_part cs)
          else if c = CHR ''+'' then map_option int (digit_part cs)
          else map_option int (digit_part (c # cs)))"

function nat_digits :: "nat \<Rightarrow> string" where
  "nat_digits n = (if n < 10 then [char_of (48 + n)] else nat_digits (n div 10) @ [char_of (48 + n mod 10)])"
  by pat_completeness auto
termination
  by (relation "measure id") auto

definition str_int :: "int \<Rightarrow> string" where
  "str_int i = (if i < 0 then CHR ''-'' # nat_digits (nat (- i)) else nat_digits (nat i))"

subsection \<open>Floats: IEEE binary64 with round-to-nearest-even\<close>

text \<open>
  A Python \<open>float\<close> is a binary64 number. A finite one is kept as the rational it
  denotes. The sign of zero is not represented: no operation of the modelled code
  observes it.
\<close>

datatype pyfloat = Fin rat | PInf | NInf | NaN

definition pow2 :: "int \<Rightarrow> rat" where
  "pow2 e = 2 powi e"

text \<open>\<open>flog2 a\<close> is the integer \<open>e\<close> with \<open>2^e \<le> a < 2^(e+1)\<close>, for positive \<open>a\<close>.\<close>

definition flog2 :: "rat \<Rightarrow> int" where
  "flog2 a = (if 1 \<le> a then bitlen \<lfloor>a\<rfloor> - 1 else - bitlen (\<lceil>1 / a\<rceil> - 1))"

definition round_half_even :: "rat \<Rightarrow> int" where
  "round_half_even m =
     (let n = \<lfloor>m\<rfloor>; d = m - of_int n
      in if d < 1 / 2 then n else if 1 / 2 < d then n + 1 else if even n then n else n + 1)"

text \<open>
  Rounding of an exact result to binary64: 53 significant bits, least exponent \<open>-1074\<close>
  (subnormal numbers), overflow to an infinity from \<open>2^1024\<close> on.
\<close>

definition round_binary64 :: "rat \<Rightarrow> pyfloat" where
  "round_binary64 r =
     (if r = 0 then Fin 0
      else let a = \<bar>r\<bar>;
               q = pow2 (max (- 1074) (flog2 a - 52));
               v = of_int (round_half_even (a / q)) * q
           in if 2 ^ 1024 \<le> v then (if 0 < r then PInf else NInf)
              else Fin (if 0 < r then v else - v))"

text \<open>
  An \<open>int\<close> operand of a float operation is converted first; a value that does not
  round to a finite float raises \<open>OverflowError\<close>.
\<close>

definition float_of_int :: "int \<Rightarrow> py_exc + pyfloat" where
  "float_of_int i =
     (case round_binary64 (of_int i) of
        Fin v \<Rightarrow> Inr (Fin v)
      | _ \<Rightarrow> Inl OverflowError)"

definition fneg :: "pyfloat \<Rightarrow> pyfloat" where
  "fneg x = (case x of Fin a \<Rightarrow> Fin (- a) | PInf \<Rightarrow> NInf | NInf \<Rightarrow> PInf | NaN \<Rightarrow> NaN)"

fun fadd :: "pyfloat \<Rightarrow> pyfloat \<Rightarrow> pyfloat" where
  "fadd (Fin a) (Fin b) = round_binary64 (a + b)"
| "fadd NaN y = NaN"
| "fadd x NaN = NaN"
| "fadd PInf NInf = NaN"
| "fadd NInf PInf = NaN"
| "fadd PInf y = PInf"
| "fadd NInf y = NInf"
| "fadd x PInf = PInf"
| "fadd x NInf = NInf"

definition fsub :: "pyfloat \<Rightarrow> pyfloat \<Rightarrow> pyfloat" where
  "fsub x y = fadd x (fneg y)"

definition fsign :: "pyfloat \<Rightarrow> int" where
  "fsign x = (case x of Fin a \<Rightarrow> (if 0 < a then 1 else if a < 0 then - 1 else 0)
                      | PInf \<Rightarrow> 1 | NInf \<Rightarrow> - 1 | NaN \<Rightarrow> 0)"

definition inf_of_sign :: "int \<Rightarrow> pyfloat" where
  "inf_of_sign s = (if s = 0 then NaN else if 0 < s then PInf else NInf)"

fun fmul :: "pyfloat \<Rightarrow> pyfloat \<Rightarrow> pyfloat" where
  "fmul (Fin a) (Fin b) = round_binary64 (a * b)"
| "fmul NaN y = NaN"
| "fmul x NaN = NaN"
| "fmul x y = inf_of_sign (fsign x * fsign y)"

text \<open>
  The comparison \<open>x < y\<close> of two floats; false whenever an operand is a NaN.
\<close>

fun flt :: "pyfloat \<Rightarrow> pyfloat \<Rightarrow> bool" where
  "flt NaN y = False"
| "flt x NaN = False"
| "flt (Fin a) (Fin b) = (a < b)"
| "flt x PInf = (x \<noteq> PInf)"
| "flt NInf y = (y \<noteq> NInf)"
| "flt x y = False"

text \<open>
  \<open>x % m\<close> for a float \<open>x\<close> and a positive finite \<open>m\<close>, as CPython's \<open>float_rem\<close>
  computes it: the exact C \<open>fmod\<close> (sign of \<open>x\<close>), to which \<open>m\<close> is added once when it
  is negative. An infinite or NaN \<open>x\<close> gives NaN.
\<close>

definition c_fmod :: "rat \<Rightarrow> rat \<Rightarrow> rat" where
  "c_fmod a m = (if 0 \<le> a then a - m * of_int \<lfloor>a / m\<rfloor> else a + m * of_int \<lfloor>(- a) / m\<rfloor>)"

definition float_rem :: "pyfloat \<Rightarrow> rat \<Rightarrow> pyfloat" where
  "float_rem x m =
     (case x of
        Fin a \<Rightarrow> (let r = c_fmod a m in if r < 0 then round_binary64 (r + m) else Fin r)
      | _ \<Rightarrow> NaN)"

subsection \<open>\<open>float(s)\<close> and \<open>repr\<close> of a float\<close>

text \<open>
  \<open>split_first p s\<close> cuts \<open>s\<close> at its first character satisfying \<open>p\<close>: the part before
  it and, when there is one, the part after it.
\<close>

definition split_first :: "(char \<Rightarrow> bool) \<Rightarrow> string \<Rightarrow> string \<times> string option" where
  "split_first p s =
     (case dropWhile (\<lambda>c. \<not> p c) s of
        [] \<Rightarrow> (s, None)
      | c # rest \<Rightarrow> (takeWhile (\<lambda>c. \<not> p c) s, Some rest))"

definition signed_digit_part :: "string \<Rightarrow> int option" where
  "signed_digit_part s =
     (case s of
        [] \<Rightarrow> None
      | c # cs \<Rightarrow>
          if c = CHR ''-'' then map_option (\<lambda>n. - int n) (digit_part cs)
          else if c = CHR ''+'' then map_option int (digit_part cs)
          else map_option int (digit_part (c # cs)))"

text \<open>
  The mantissa \<open>digits [. [digits]]\<close> or \<open>. digits\<close> of a decimal literal, as the exact
  rational it denotes.
\<close>

definition mantissa_value :: "string \<Rightarrow> rat option" where
  "mantissa_value m =
     (case split_first (\<lambda>c. c = CHR ''.'') m of
        (ip, None) \<Rightarrow> map_option of_nat (digit_part ip)
      | (ip, Some fp) \<Rightarrow>
          (if ip = [] \<and> fp = [] then None
           else case (if ip = [] then Some [] else digit_chars False ip,
                      if fp = [] then Some [] else digit_chars False fp) of
                  (Some ds, Some fs) \<Rightarrow>
                    Some (of_nat (digits_value ds) + of_nat (digits_value fs) / 10 ^ length fs)
                | _ \<Rightarrow> None))"

definition decimal_literal :: "string \<Rightarrow> rat option" where
  "decimal_literal body =
     (case split_first (\<lambda>c. c = CHR ''e'' \<or> c = CHR ''E'') body of
        (m, None) \<Rightarrow> mantissa_value m
      | (m, Some ex) \<Rightarrow>
          (case (mantissa_value m, signed_digit_part ex) of
             (Some v, Some k) \<Rightarrow> Some (v * 10 powi k)
           | _ \<Rightarrow> None))"

text \<open>
  \<open>float(s)\<close>: surrounding ASCII whitespace is ignored; a sign; then \<open>inf\<close>, \<open>infinity\<close> or
  \<open>nan\<close> in any case, or a decimal literal, which is rounded to the nearest float.
  \<open>None\<close> stands for the \<open>ValueError\<close> of the source.
\<close>

definition py_float :: "string \<Rightarrow> pyfloat option" where
  "py_float s =
     (case strip_ascii s of
        [] \<Rightarrow> None
      | c # cs \<Rightarrow>
          (let neg = (c = CHR ''-'');
               body = (if c = CHR ''-'' \<or> c = CHR ''+'' then cs else c # cs)
           in if lower body = ''inf'' \<or> lower body = ''infinity''
                then Some (if neg then NInf else PInf)
              else if lower body = ''nan'' then Some NaN
              else map_option (\<lambda>r. round_binary64 (if neg then - r else r))
                     (decimal_literal body)))"

text \<open>
  \<open>repr\<close> of a float, which an f-string field without a format uses. The finite case
  is the positional form of a multiple of \<open>1/4\<close>: integer part, point, and the
  fraction \<open>0\<close>, \<open>25\<close>, \<open>5\<close> or \<open>75\<close>. These are the finite values that the orientation
  expression of \<open>convert_min_to_txt\<close> yields (all below 360).
\<close>

definition float_repr :: "pyfloat \<Rightarrow> string" where
  "float_repr x =
     (case x of
        NaN \<Rightarrow> ''nan''
      | PInf \<Rightarrow> ''inf''
      | NInf \<Rightarrow> ''-inf''
      | Fin r \<Rightarrow>
          (let a = \<bar>r\<bar>; n = \<lfloor>a\<rfloor>; k = \<lfloor>4 * (a - of_int n)\<rfloor>
           in (if r < 0 then ''-'' else []) @ nat_digits (nat n) @ ''.'' @
              (if k = 0 then ''0'' else if k = 1 then ''25'' else if k = 2 then ''5'' else ''75'')))"

section \<open>Files and paths\<close>

text \<open>
  The file system is a map from paths to file contents. Directories are not
  represented: \<open>os.makedirs\<close> has no effect on the model, and opening a path for writing
  always succeeds.
\<close>

type_synonym fs = "string \<rightharpoonup> string"

text \<open>
  Text mode reads with universal newlines: a carriage return, with or without a line
  feed after it, arrives as one line feed. \<open>readlines\<close> keeps the line feed at the end
  of each line.
\<close>

fun universal_newlines :: "string \<Rightarrow> string" where
  "universal_newlines [] = []"
| "universal_newlines [c] = (if c = carriage_return then [newline] else [c])"
| "universal_newlines (c # d # cs) =
     (if c = carriage_return
      then (if d = newline then newline # universal_newlines cs
            else newline # universal_newlines (d # cs))
      else c # universal_newlines (d # cs))"

fun readlines_acc :: "string \<Rightarrow> string \<Rightarrow> string list" where
  "readlines_acc cur [] = (if cur = [] then [] else [rev cur])"
| "readlines_acc cur (c # cs) =
     (if c = newline then rev (c # cur) # readlines_acc [] cs
      else readlines_acc (c # cur) cs)"

definition readlines :: "string \<Rightarrow> string list" where
  "readlines content = readlines_acc [] (universal_newlines content)"

text \<open>\<open>os.path.basename\<close>, \<open>os.path.splitext\<close> and \<open>os.path.join\<close> of \<open>posixpath\<close>.\<close>

definition basename :: "string \<Rightarrow> string" where
  "basename p = rev (takeWhile (\<lambda>c. c \<noteq> CHR ''/'') (rev p))"

definition splitext :: "string \<Rightarrow> string \<times> string" where
  "splitext p =
     (let name = basename p;
          dir = take (length p - length name) p;
          ext = CHR ''.'' # rev (takeWhile (\<lambda>c. c \<noteq> CHR ''.'') (rev name));
          stem = take (length name - length ext) name
      in if CHR ''.'' \<in> set name \<and> filter (\<lambda>c. c \<noteq> CHR ''.'') stem \<noteq> []
         then (dir @ stem, ext) else (p, []))"

definition path_join :: "string \<Rightarrow> string \<Rightarrow> string" where
  "path_join a b =
     (if startswith b ''/'' then b
      else if a = [] \<or> endswith a ''/'' then a @ b
      else a @ ''/'' @ b)"

text \<open>
  The batch functions call \<open>os.makedirs(path, exist_ok=True)\<close>, \<open>os.path.exists\<close> and
  \<open>os.remove\<close> outside every \<open>try\<close> block, so that an exception of theirs leaves the
  function. What they do depends on directories and permissions, which the map of
  files does not hold; their behaviour is the parameter \<open>env\<close>: the exception that
  \<open>os.makedirs\<close> raises, if any; whether a path exists; and the file system after
  \<open>os.remove\<close>, or the exception it raises.
\<close>

record os_env =
  env_makedirs :: "fs \<Rightarrow> string \<Rightarrow> py_exc option"
  env_exists :: "fs \<Rightarrow> string \<Rightarrow> bool"
  env_remove :: "fs \<Rightarrow> string \<Rightarrow> py_exc + fs"



section \<open>Conversion of detector output: \<open>minutiae_extraction.py\<close>\<close>

subsection \<open>\<open>convert_min_to_txt\<close>\<close>

text \<open>
  The body of the \<open>try\<close> block for one line of the detector file. \<open>Inr None\<close> is a
  \<open>continue\<close> that appends nothing, \<open>Inr (Some d)\<close> appends the record \<open>d\<close>, and
  \<open>Inl e\<close> is the exception \<open>e\<close> raised inside the block. Unpacking
  \<open>map(int, fields[1].split(','))\<close> into \<open>x, y\<close> raises \<open>ValueError\<close> unless there are
  exactly two parts and both are integers.
\<close>

text \<open>
  Line 183 of the source, \<open>(90 - (11.25 * direction_unit)) % 360\<close>, for the \<open>int\<close>
  \<open>direction_unit\<close>: the product converts the integer to a float and is rounded, the
  difference is rounded, the remainder is taken by 360.
\<close>

definition orientation_deg :: "int \<Rightarrow> py_exc + pyfloat" where
  "orientation_deg direction_unit =
     (case float_of_int direction_unit of
        Inl e \<Rightarrow> Inl e
      | Inr u \<Rightarrow> Inr (float_rem (fsub (Fin 90) (fmul (Fin (45 / 4)) u)) 360))"

definition convert_line :: "pyfloat \<Rightarrow> string \<Rightarrow> py_exc + string option" where
  "convert_line quality_threshold raw =
     (let line = strip raw in
      if line = [] then Inr None
      else let fields = split_on CHR '':'' line in
        if length fields < 5 then Inr None
        else (case map py_int (split_on CHR '','' (fields ! 1)) of
                [Some x, Some y] \<Rightarrow>
                  (case py_int (fields ! 2) of
                     None \<Rightarrow> Inl ValueError
                   | Some direction_unit \<Rightarrow>
                       (case orientation_deg direction_unit of
                          Inl e \<Rightarrow> Inl e
                        | Inr orientation \<Rightarrow>
                            (case py_float (fields ! 3) of
                               None \<Rightarrow> Inl ValueError
                             | Some quality \<Rightarrow>
                                 if flt quality quality_threshold then Inr None
                                 else let mn_type = strip (fields ! 4);
                                          minutiae_type = (if contains mn_type ''BIF'' then 1 else 2)
                                      in Inr (Some (str_int minutiae_type @ '' '' @ str_int x @ '' '' @
                                                    str_int y @ '' '' @ float_repr orientation)))))
              | _ \<Rightarrow> Inl ValueError))"

text \<open>
  The orientation as the specification gives it: \<open>(90 - 11.25 u) mod 360\<close> over the
  rationals, with \<open>a mod m = a - m \<lfloor>a / m\<rfloor>\<close>.
\<close>

definition rat_mod :: "rat \<Rightarrow> rat \<Rightarrow> rat" where
  "rat_mod a m = a - m * of_int \<lfloor>a / m\<rfloor>"

definition spec_orientation_deg :: "int \<Rightarrow> rat" where
  "spec_orientation_deg u = rat_mod (90 - 45 / 4 * of_int u) 360"

text \<open>A line from which the \<open>try\<close> block appends a record.\<close>

definition yields_record :: "pyfloat \<Rightarrow> string \<Rightarrow> bool" where
  "yields_record quality_threshold raw =
     (case convert_line quality_threshold raw of Inr (Some d) \<Rightarrow> True | _ \<Rightarrow> False)"

text \<open>
  The loop over the lines: \<open>ValueError\<close> and \<open>IndexError\<close> are caught and the line is
  skipped; any other exception leaves the loop and reaches the handler of the whole
  function. The result is \<open>minutiae_data\<close> in the order of the appends.
\<close>

fun convert_lines :: "pyfloat \<Rightarrow> string list \<Rightarrow> py_exc + string list" where
  "convert_lines quality_threshold [] = Inr []"
| "convert_lines quality_threshold (l # ls) =
     (case convert_line quality_threshold l of
        Inl e \<Rightarrow>
          if e = ValueError \<or> e = IndexError then convert_lines quality_threshold ls
          else Inl e
      | Inr None \<Rightarrow> convert_lines quality_threshold ls
      | Inr (Some d) \<Rightarrow>
          (case convert_lines quality_threshold ls of
             Inl e \<Rightarrow> Inl e
           | Inr ds \<Rightarrow> Inr (d # ds)))"

text \<open>
  What \<open>output_file.write\<close> writes for one record at line 206 of the source: the
  record followed by the two characters backslash and \<open>n\<close>, since the f-string literal
  there has an escaped backslash before the \<open>n\<close>, not a line feed.
\<close>

definition written_record :: "string \<Rightarrow> string" where
  "written_record data = data @ [backslash, CHR ''n'']"

text \<open>
  The function returns the new file system and the path of the written file, or
  \<open>None\<close>. A missing input file and an exception that leaves the loop both end in the
  outer handler, which returns \<open>None\<close>.
\<close>

definition convert_min_to_txt :: "fs \<Rightarrow> string \<Rightarrow> string \<Rightarrow> pyfloat \<Rightarrow> fs \<times> string option" where
  "convert_min_to_txt files min_file_path output_dir quality_threshold =
     (case files min_file_path of
        None \<Rightarrow> (files, None)
      | Some content \<Rightarrow>
          (let lines = readlines content;
               file_name = fst (splitext (basename min_file_path));
               output_file_path = path_join output_dir (file_name @ ''.txt'')
           in case convert_lines quality_threshold (drop 3 lines) of
                Inl e \<Rightarrow> (files, None)
              | Inr minutiae_data \<Rightarrow>
                  if length minutiae_data > 0
                  then (files(output_file_path \<mapsto> concat (map written_record minutiae_data)),
                        Some output_file_path)
                  else (files, None)))"

subsection \<open>\<open>convert_all_minutiae_files\<close>\<close>

text \<open>
  The number of lines \<open>line\<close> of a file for which \<open>line.strip()\<close> is not empty.
\<close>

definition line_count_of :: "string \<Rightarrow> nat" where
  "line_count_of content = length (filter (\<lambda>line. strip line \<noteq> []) (readlines content))"

text \<open>
  The loop over \<open>min_files\<close> with its two counters. A path is true in \<open>if txt_file\<close>
  when it is not the empty string. When the converted file cannot be opened again, or
  \<open>os.remove\<close> raises, the handler at line 263 logs the error and the loop goes on; a
  file that could not be removed stays.
\<close>

fun convert_files ::
  "os_env \<Rightarrow> fs \<Rightarrow> string \<Rightarrow> pyfloat \<Rightarrow> int \<Rightarrow> string list \<Rightarrow> nat \<Rightarrow> nat \<Rightarrow> fs \<times> nat \<times> nat" where
  "convert_files env files output_dir quality_threshold min_minutiae_count [] successful total_n =
     (files, successful, total_n)"
| "convert_files env files output_dir quality_threshold min_minutiae_count (min_file_path # rest)
     successful total_n =
     (case convert_min_to_txt files min_file_path output_dir quality_threshold of
        (files1, None) \<Rightarrow>
          convert_files env files1 output_dir quality_threshold min_minutiae_count rest
            successful (total_n + 1)
      | (files1, Some txt_file) \<Rightarrow>
          if txt_file = [] then
            convert_files env files1 output_dir quality_threshold min_minutiae_count rest
              successful (total_n + 1)
          else (case files1 txt_file of
                  None \<Rightarrow>
                    convert_files env files1 output_dir quality_threshold min_minutiae_count rest
                      successful (total_n + 1)
                | Some content \<Rightarrow>
                    if min_minutiae_count \<le> int (line_count_of content) then
                      convert_files env files1 output_dir quality_threshold min_minutiae_count rest
                        (successful + 1) (total_n + 1)
                    else
                      (case env_remove env files1 txt_file of
                         Inl e \<Rightarrow>
                           convert_files env files1 output_dir quality_threshold
                             min_minutiae_count rest successful (total_n + 1)
                       | Inr files2 \<Rightarrow>
                           convert_files env files2 output_dir quality_threshold
                             min_minutiae_count rest successful (total_n + 1))))"



text \<open>
  The threshold on a path of a file system: no file there, or a file with at least
  \<open>n\<close> non-blank lines.
\<close>

definition has_enough :: "int \<Rightarrow> fs \<Rightarrow> string \<Rightarrow> bool" where
  "has_enough n files p = (case files p of None \<Rightarrow> True | Some c \<Rightarrow> n \<le> int (line_count_of c))"

subsection \<open>\<open>parse_minutiae_file\<close>\<close>

text \<open>
  A numpy array of floats of dimension zero, one or two. A two-dimensional array
  carries its shape, so that the shapes \<open>(0, 4)\<close> and \<open>(1, 0)\<close> are values.
\<close>

datatype ndarray = Arr0 pyfloat | Arr1 "pyfloat list" | Arr2 nat nat "pyfloat list list"


text \<open>\<open>len(a)\<close>: the size of the first axis; a zero-dimensional array has none.\<close>

definition len_array :: "ndarray \<Rightarrow> nat option" where
  "len_array a = (case a of Arr0 v \<Rightarrow> None | Arr1 vs \<Rightarrow> Some (length vs) | Arr2 r c rows \<Rightarrow> Some r)"


text \<open>
  \<open>np.loadtxt(path)\<close> with its defaults: the text after a \<open>#\<close> is a comment, the fields
  of a line are separated by whitespace, a line without fields is skipped, every field
  is converted to a float, all rows have the same number of fields. The result is
  squeezed: axes of length one are dropped. A file without rows gives an empty
  one-dimensional array.
\<close>

text \<open>
  The float parser of \<open>np.loadtxt\<close> reads a field with the C function
  \<open>PyOS_string_to_double\<close>: the literals of \<open>float(s)\<close>, but without the underscores
  that \<open>float(s)\<close> allows between digits.
\<close>

definition np_float :: "string \<Rightarrow> pyfloat option" where
  "np_float s = (if CHR ''_'' \<in> set s then None else py_float s)"

definition loadtxt_row :: "string \<Rightarrow> string list" where
  "loadtxt_row line = split_ws (takeWhile (\<lambda>c. c \<noteq> CHR ''#'') line)"

fun convert_fields :: "string list \<Rightarrow> py_exc + pyfloat list" where
  "convert_fields [] = Inr []"
| "convert_fields (t # ts) =
     (case np_float t of
        None \<Rightarrow> Inl ValueError
      | Some v \<Rightarrow> (case convert_fields ts of Inl e \<Rightarrow> Inl e | Inr vs \<Rightarrow> Inr (v # vs)))"

fun loadtxt_rows :: "string list list \<Rightarrow> py_exc + pyfloat list list" where
  "loadtxt_rows [] = Inr []"
| "loadtxt_rows (r # rs) =
     (case convert_fields r of
        Inl e \<Rightarrow> Inl e
      | Inr vs \<Rightarrow>
          (case loadtxt_rows rs of
             Inl e \<Rightarrow> Inl e
           | Inr vss \<Rightarrow>
               if vss \<noteq> [] \<and> length (hd vss) \<noteq> length vs then Inl ValueError
               else Inr (vs # vss)))"

definition squeeze :: "pyfloat list list \<Rightarrow> ndarray" where
  "squeeze rows =
     (case rows of
        [] \<Rightarrow> Arr1 []
      | r # rs \<Rightarrow>
          if rs = [] then (case r of [v] \<Rightarrow> Arr0 v | _ \<Rightarrow> Arr1 r)
          else if length r = 1 then Arr1 (map hd rows)
          else Arr2 (length rows) (length r) rows)"

definition loadtxt :: "fs \<Rightarrow> string \<Rightarrow> py_exc + ndarray" where
  "loadtxt files file_path =
     (case files file_path of
        None \<Rightarrow> Inl OSError
      | Some content \<Rightarrow>
          (case loadtxt_rows (filter (\<lambda>r. r \<noteq> []) (map loadtxt_row (readlines content))) of
             Inl e \<Rightarrow> Inl e
           | Inr rows \<Rightarrow> Inr (squeeze rows)))"

text \<open>The float \<open>np.pi\<close>, and the element \<open>v * np.pi / 180\<close>.\<close>

definition np_pi :: rat where
  "np_pi = 884279719003555 / 281474976710656"

definition fdiv_pos :: "pyfloat \<Rightarrow> rat \<Rightarrow> pyfloat" where
  "fdiv_pos x d = (case x of Fin a \<Rightarrow> round_binary64 (a / d) | _ \<Rightarrow> x)"

definition deg_to_rad :: "pyfloat \<Rightarrow> pyfloat" where
  "deg_to_rad v = fdiv_pos (fmul v (Fin np_pi)) 180"

definition empty_table :: ndarray where
  "empty_table = Arr2 0 4 []"

text \<open>
  \<open>data.reshape(1, -1)\<close> of a one-dimensional array; \<open>data[:, 3]\<close> raises \<open>IndexError\<close>
  on an array without a second axis and on one whose second axis is shorter than four.
  Every exception ends in the handler, which returns the empty table.
\<close>

definition parse_minutiae_file :: "fs \<Rightarrow> string \<Rightarrow> ndarray" where
  "parse_minutiae_file files file_path =
     (case loadtxt files file_path of
        Inl e \<Rightarrow> empty_table
      | Inr loaded \<Rightarrow>
          (let data = (case loaded of Arr1 vs \<Rightarrow> Arr2 1 (length vs) [vs] | _ \<Rightarrow> loaded)
           in case data of
                Arr2 r c rows \<Rightarrow>
                  if 3 < c then Arr2 r c (map (\<lambda>row. row[3 := deg_to_rad (row ! 3)]) rows)
                  else empty_table
              | _ \<Rightarrow> empty_table))"

section \<open>Rendering: \<open>template_rendering.py\<close>\<close>

subsection \<open>\<open>create_minutiae_map\<close>\<close>

text \<open>
  \<open>astype(np.int32)\<close> of a float truncates toward zero. For a value outside the range
  of \<open>int32\<close>, an infinity or a NaN the C conversion gives the least \<open>int32\<close> on x86-64.
\<close>

definition trunc_rat :: "rat \<Rightarrow> int" where
  "trunc_rat a = (if 0 \<le> a then \<lfloor>a\<rfloor> else \<lceil>a\<rceil>)"

definition astype_int32 :: "pyfloat \<Rightarrow> int" where
  "astype_int32 x =
     (case x of
        Fin a \<Rightarrow> (let t = trunc_rat a in if - (2 ^ 31) \<le> t \<and> t < 2 ^ 31 then t else - (2 ^ 31))
      | _ \<Rightarrow> - (2 ^ 31))"

definition clip :: "int \<Rightarrow> int \<Rightarrow> int \<Rightarrow> int" where
  "clip lo hi v = min (max v lo) hi"

text \<open>
  True division of two non-negative \<open>int\<close>s: correctly rounded, \<open>ZeroDivisionError\<close>
  for a zero divisor.
\<close>

definition int_truediv :: "nat \<Rightarrow> nat \<Rightarrow> py_exc + pyfloat" where
  "int_truediv a b =
     (if b = 0 then Inl ZeroDivisionError
      else (case round_binary64 (of_nat a / of_nat b) of
              Fin v \<Rightarrow> Inr (Fin v)
            | _ \<Rightarrow> Inl OverflowError))"

text \<open>\<open>a[:, j]\<close> of a two-dimensional array.\<close>

definition column :: "ndarray \<Rightarrow> nat \<Rightarrow> py_exc + pyfloat list" where
  "column a j =
     (case a of
        Arr2 r c rows \<Rightarrow> if j < c then Inr (map (\<lambda>row. row ! j) rows) else Inl IndexError
      | _ \<Rightarrow> Inl IndexError)"

definition zeros :: "nat \<times> nat \<Rightarrow> nat list list" where
  "zeros shape = replicate (fst shape) (replicate (snd shape) 0)"

text \<open>
  \<open>minutiae_map[y_coords, x_coords] = 255\<close>: the assignments happen in the order of
  the points. After the clipping every index is in range when both target dimensions
  are positive; with a dimension zero the clipped index is \<open>-1\<close> and numpy raises
  \<open>IndexError\<close>.
\<close>

fun mark_points :: "nat list list \<Rightarrow> (int \<times> int) list \<Rightarrow> nat list list" where
  "mark_points m [] = m"
| "mark_points m ((y, x) # ps) = mark_points (m[nat y := (m ! nat y)[nat x := 255]]) ps"

definition scaled_coords :: "pyfloat list \<Rightarrow> pyfloat \<Rightarrow> nat \<Rightarrow> int list" where
  "scaled_coords vs scale target_dim =
     map (\<lambda>v. clip 0 (int target_dim - 1) (astype_int32 (fmul v scale))) vs"

definition create_minutiae_map ::
  "ndarray \<Rightarrow> nat \<times> nat \<Rightarrow> nat \<times> nat \<Rightarrow> py_exc + nat list list" where
  "create_minutiae_map minutiae orig_size target_size =
     (if len_array minutiae = None then Inl TypeError
      else if len_array minutiae = Some 0 then Inr (zeros target_size)
      else case int_truediv (fst target_size) (fst orig_size) of
        Inl e \<Rightarrow> Inl e
      | Inr scale_y \<Rightarrow>
      (case int_truediv (snd target_size) (snd orig_size) of
        Inl e \<Rightarrow> Inl e
      | Inr scale_x \<Rightarrow>
      (case column minutiae 1 of
        Inl e \<Rightarrow> Inl e
      | Inr xs \<Rightarrow>
      (case column minutiae 2 of
        Inl e \<Rightarrow> Inl e
      | Inr ys \<Rightarrow>
          (let x_coords = scaled_coords xs scale_x (snd target_size);
               y_coords = scaled_coords ys scale_y (fst target_size)
           in if fst target_size = 0 \<or> snd target_size = 0 then Inl IndexError
              else Inr (mark_points (zeros target_size) (zip y_coords x_coords)))))))"

text \<open>
  The position the specification names for a coordinate: the nearest integer to
  \<open>x * target / orig\<close>, clipped into \<open>[0, target - 1]\<close>.
\<close>

definition spec_scaled_index :: "int \<Rightarrow> nat \<Rightarrow> nat \<Rightarrow> int" where
  "spec_scaled_index x orig target =
     clip 0 (int target - 1) (round (of_int x * of_nat target / of_nat orig :: rat))"

subsection \<open>\<open>create_template_from_file\<close> and \<open>create_templates_from_folder\<close>\<close>

text \<open>
  \<open>create_template_image\<close> composes the channels with \<open>scikit-image\<close> line drawing and
  \<open>scipy\<close> Gaussian filters; it is taken as the parameter \<open>render\<close>, whose result is
  \<open>None\<close> when it raises. Every exception inside \<open>create_template_from_file\<close> is
  caught and turned into \<open>None\<close>.
\<close>

definition create_template_from_file ::
  "(ndarray \<Rightarrow> nat \<times> nat \<Rightarrow> nat \<times> nat \<Rightarrow> bool \<Rightarrow> 'img option) \<Rightarrow>
   fs \<Rightarrow> string \<Rightarrow> nat \<times> nat \<Rightarrow> (nat \<times> nat) option \<Rightarrow> bool \<Rightarrow> 'img option" where
  "create_template_from_file render files minutiae_file target_size orig_size include_singular =
     (let minutiae = parse_minutiae_file files minutiae_file in
      case len_array minutiae of
        None \<Rightarrow> None
      | Some n \<Rightarrow>
          if n = 0 then None
          else render minutiae (case orig_size of None \<Rightarrow> target_size | Some s \<Rightarrow> s)
                 target_size include_singular)"



section \<open>Extraction with the external detector\<close>










section \<open>Properties\<close>

subsection \<open>Rounding to binary64\<close>

lemma pow2_pos: "0 < pow2 e"
  by (simp add: pow2_def)

lemma pow2_add: "pow2 (a + b) = pow2 a * pow2 b"
  by (simp add: pow2_def power_int_add)

lemma pow2_nat: "0 \<le> e \<Longrightarrow> pow2 e = 2 ^ nat e"
  by (simp add: pow2_def power_int_def)

lemma pow2_strict_mono: "a < b \<Longrightarrow> pow2 a < pow2 b"
  by (simp add: pow2_def power_int_strict_increasing)

lemma pow2_mono: "a \<le> b \<Longrightarrow> pow2 a \<le> pow2 b"
  by (simp add: pow2_def power_int_increasing)

lemma pow2_less_cancel: "pow2 a < pow2 b \<Longrightarrow> a < b"
  using pow2_mono [of b a] by (cases "a < b") auto

lemma bitlen_pow2_bounds:
  assumes "0 < (n::int)"
  shows "pow2 (bitlen n - 1) \<le> of_int n" and "of_int n < pow2 (bitlen n)"
proof -
  from assms have b1: "1 \<le> bitlen n" by (auto simp: bitlen_alt_def)
  from bitlen_bounds [OF assms]
  have lo: "2 ^ nat (bitlen n - 1) \<le> n" and hi: "n < 2 ^ nat (bitlen n)" by auto
  have "(of_int (2 ^ nat (bitlen n - 1)) :: rat) \<le> of_int n"
    using lo by (simp only: of_int_le_iff)
  then show "pow2 (bitlen n - 1) \<le> of_int n"
    using b1 by (simp add: pow2_nat)
  have "(of_int n :: rat) < of_int (2 ^ nat (bitlen n))"
    using hi by (simp only: of_int_less_iff)
  then show "of_int n < pow2 (bitlen n)"
    using b1 by (simp add: pow2_nat)
qed

lemma flog2_bounds:
  assumes "0 < a"
  shows "pow2 (flog2 a) \<le> a" and "a < pow2 (flog2 a + 1)"
proof -
  have "pow2 (flog2 a) \<le> a \<and> a < pow2 (flog2 a + 1)"
  proof (cases "1 \<le> a")
    case True
    then have n: "0 < \<lfloor>a\<rfloor>" by linarith
    have e: "flog2 a = bitlen \<lfloor>a\<rfloor> - 1" using True by (simp add: flog2_def)
    have "pow2 (bitlen \<lfloor>a\<rfloor> - 1) \<le> of_int \<lfloor>a\<rfloor>" by (rule bitlen_pow2_bounds [OF n])
    also have "\<dots> \<le> a" by simp
    finally have lo: "pow2 (flog2 a) \<le> a" by (simp add: e)
    have b1: "0 \<le> bitlen \<lfloor>a\<rfloor>" by (rule bitlen_nonneg)
    have "\<lfloor>a\<rfloor> < 2 ^ nat (bitlen \<lfloor>a\<rfloor>)" using bitlen_bounds [OF n] by simp
    then have "a < of_int (2 ^ nat (bitlen \<lfloor>a\<rfloor>))" by (simp only: floor_less_iff)
    then have "a < pow2 (bitlen \<lfloor>a\<rfloor>)" using b1 by (simp add: pow2_nat)
    then have hi: "a < pow2 (flog2 a + 1)" by (simp add: e)
    from lo hi show ?thesis by simp
  next
    case False
    then have a1: "a < 1" by simp
    define b where "b = 1 / a"
    define m where "m = \<lceil>b\<rceil> - 1"
    have b1: "1 < b" using assms a1 by (simp add: b_def)
    have m1: "0 < m" using b1 unfolding m_def by linarith
    have mb: "of_int m < b" and bm: "b \<le> of_int m + 1" unfolding m_def by linarith+
    have e: "flog2 a = - bitlen m" using False by (simp add: flog2_def m_def b_def)
    have ab: "a = 1 / b" using assms by (simp add: b_def)
    have k1: "1 \<le> bitlen m" using m1 by (auto simp: bitlen_alt_def)
    have mlo: "2 ^ nat (bitlen m - 1) \<le> m" and mhi: "m < 2 ^ nat (bitlen m)"
      using bitlen_bounds [OF m1] by auto
    from mhi have "m + 1 \<le> 2 ^ nat (bitlen m)" by simp
    then have "(of_int (m + 1) :: rat) \<le> of_int (2 ^ nat (bitlen m))" by (simp only: of_int_le_iff)
    then have "of_int m + 1 \<le> pow2 (bitlen m)" using k1 by (simp add: pow2_nat)
    with bm have bhi: "b \<le> pow2 (bitlen m)" by simp
    from mlo have "(of_int (2 ^ nat (bitlen m - 1)) :: rat) \<le> of_int m" by (simp only: of_int_le_iff)
    then have "pow2 (bitlen m - 1) \<le> of_int m" using k1 by (simp add: pow2_nat)
    with mb have blo: "pow2 (bitlen m - 1) < b" by simp
    have inv: "pow2 (- k) = 1 / pow2 k" for k
      by (simp add: pow2_def power_int_minus_divide)
    have "1 / pow2 (bitlen m) \<le> 1 / b"
      using bhi b1 by (intro divide_left_mono) (auto simp: pow2_pos)
    moreover have "pow2 (flog2 a) = 1 / pow2 (bitlen m)" by (simp only: e inv)
    ultimately have lo: "pow2 (flog2 a) \<le> a" by (simp only: ab [symmetric])
    have "1 / b < 1 / pow2 (bitlen m - 1)"
      using blo b1 by (intro divide_strict_left_mono) (auto simp: pow2_pos)
    moreover have "pow2 (flog2 a + 1) = 1 / pow2 (bitlen m - 1)"
      using inv [of "bitlen m - 1"] by (simp add: e)
    ultimately have hi: "a < pow2 (flog2 a + 1)" by (simp only: ab [symmetric])
    from lo hi show ?thesis by simp
  qed
  then show "pow2 (flog2 a) \<le> a" and "a < pow2 (flog2 a + 1)" by simp_all
qed

lemma flog2_unique:
  assumes "pow2 e \<le> a" and "a < pow2 (e + 1)"
  shows "flog2 a = e"
proof -
  have pos: "0 < a" using assms(1) pow2_pos [of e] by simp
  from flog2_bounds [OF pos] have lo: "pow2 (flog2 a) \<le> a" and hi: "a < pow2 (flog2 a + 1)" .
  from lo assms(2) have "pow2 (flog2 a) < pow2 (e + 1)" by simp
  then have 1: "flog2 a < e + 1" by (rule pow2_less_cancel)
  from assms(1) hi have "pow2 e < pow2 (flog2 a + 1)" by simp
  then have 2: "e < flog2 a + 1" by (rule pow2_less_cancel)
  from 1 2 show ?thesis by simp
qed

lemma round_half_even_of_int: "round_half_even (of_int n) = n"
  by (simp add: round_half_even_def)

lemma round_binary64_minus: "round_binary64 (- r) = fneg (round_binary64 r)"
  by (simp add: round_binary64_def fneg_def Let_def)

lemma round_binary64_pos:
  assumes "pow2 e \<le> r" and "r < pow2 (e + 1)"
  shows "round_binary64 r =
           (let q = pow2 (max (- 1074) (e - 52));
                v = of_int (round_half_even (r / q)) * q
            in if 2 ^ 1024 \<le> v then PInf else Fin v)"
proof -
  have pos: "0 < r" using assms(1) pow2_pos [of e] by simp
  have "flog2 r = e" by (rule flog2_unique [OF assms])
  with pos show ?thesis by (simp add: round_binary64_def Let_def)
qed

lemma round_binary64_exact:
  assumes r: "r = of_int m * pow2 e"
    and m: "\<bar>m\<bar> < 2 ^ 53"
    and e: "- 1074 \<le> e"
    and fin: "\<bar>r\<bar> < 2 ^ 1024"
  shows "round_binary64 r = Fin r"
proof (cases "r = 0")
  case True
  then show ?thesis by (simp add: round_binary64_def)
next
  case False
  define a where "a = \<bar>r\<bar>"
  define E where "E = max (- 1074) (flog2 a - 52)"
  have a_pos: "0 < a" using False by (simp add: a_def)
  have a_eq: "a = of_int \<bar>m\<bar> * pow2 e"
    using pow2_pos [of e] by (simp add: a_def r abs_mult)
  have "of_int \<bar>m\<bar> < (2 ^ 53 :: rat)"
    using m by (metis of_int_less_iff of_int_numeral of_int_power)
  then have "a < 2 ^ 53 * pow2 e"
    unfolding a_eq using pow2_pos [of e] by (simp only: mult_less_cancel_right_pos)
  also have "\<dots> = pow2 (e + 53)" by (simp add: pow2_add pow2_nat)
  finally have "a < pow2 (e + 53)" .
  with flog2_bounds(1) [OF a_pos] have "pow2 (flog2 a) < pow2 (e + 53)" by simp
  then have "flog2 a < e + 53" by (rule pow2_less_cancel)
  with e have Ee: "E \<le> e" by (simp add: E_def)
  have "pow2 e = pow2 (e - E) * pow2 E" by (simp flip: pow2_add)
  then have "a / pow2 E = of_int \<bar>m\<bar> * pow2 (e - E)"
    using pow2_pos [of E] by (simp add: a_eq)
  also have "\<dots> = of_int (\<bar>m\<bar> * 2 ^ nat (e - E))"
    using Ee by (simp add: pow2_nat)
  finally have quot: "a / pow2 E = of_int (\<bar>m\<bar> * 2 ^ nat (e - E))" .
  have "of_int (round_half_even (a / pow2 E)) = a / pow2 E"
    by (simp only: quot round_half_even_of_int)
  then have v: "of_int (round_half_even (a / pow2 E)) * pow2 E = a"
    using pow2_pos [of E] by simp
  have nov: "\<not> 2 ^ 1024 \<le> a" using fin by (simp add: a_def)
  have sg: "(if 0 < r then a else - a) = r" by (simp add: a_def)
  have "round_binary64 r = Fin (if 0 < r then a else - a)"
    using v False nov
    by (simp add: round_binary64_def Let_def a_def [symmetric] E_def [symmetric])
  then show ?thesis by (simp only: sg)
qed

lemma round_binary64_of_int:
  "\<bar>i\<bar> < 2 ^ 53 \<Longrightarrow> round_binary64 (of_int i) = Fin (of_int i)"
proof -
  assume a: "\<bar>i\<bar> < 2 ^ 53"
  have "\<bar>of_int i :: rat\<bar> < 2 ^ 53"
    using a by (metis of_int_abs of_int_less_iff of_int_numeral of_int_power)
  also have "(2 ^ 53 :: rat) < 2 ^ 1024" by simp
  finally have fin: "\<bar>of_int i :: rat\<bar> < 2 ^ 1024" .
  show ?thesis
    by (rule round_binary64_exact [of _ i 0]) (use a fin in \<open>simp_all add: pow2_def\<close>)
qed

lemma round_binary64_overflow:
  assumes "2 ^ 1024 \<le> r"
  shows "round_binary64 r = PInf"
proof -
  have pos: "0 < r" using assms by (simp add: less_le_trans [of 0 "2 ^ 1024"])
  define e where "e = flog2 r"
  have lo: "pow2 e \<le> r" and hi: "r < pow2 (e + 1)"
    using flog2_bounds [OF pos] by (simp_all add: e_def)
  have "pow2 1024 \<le> r" using assms by (simp add: pow2_def)
  with hi have "pow2 1024 < pow2 (e + 1)" by simp
  then have e1024: "1024 \<le> e" using pow2_less_cancel [of 1024 "e + 1"] by simp
  define q where "q = pow2 (e - 52)"
  have q_pos: "0 < q" by (simp add: q_def pow2_pos)
  have mx: "max (- 1074) (e - 52) = e - 52" using e1024 by simp
  have "pow2 e = pow2 52 * pow2 (e - 52)" by (simp flip: pow2_add)
  then have pe: "pow2 e = 2 ^ 52 * q" by (simp add: q_def pow2_def)
  with lo have "2 ^ 52 \<le> r / q" using q_pos by (simp add: pos_le_divide_eq)
  then have f: "(2 ^ 52 :: int) \<le> \<lfloor>r / q\<rfloor>" by (simp add: le_floor_iff)
  have g: "\<lfloor>r / q\<rfloor> \<le> round_half_even (r / q)"
    by (simp add: round_half_even_def Let_def)
  from f g have "(2 ^ 52 :: int) \<le> round_half_even (r / q)" by (rule order_trans)
  then have "(of_int (2 ^ 52) :: rat) \<le> of_int (round_half_even (r / q))"
    by (simp only: of_int_le_iff)
  then have h: "(2 ^ 52 :: rat) \<le> of_int (round_half_even (r / q))" by simp
  have A: "2 ^ 52 * q \<le> of_int (round_half_even (r / q)) * q"
    by (rule mult_right_mono [OF h]) (use q_pos in simp)
  have "pow2 1024 \<le> pow2 e" by (rule pow2_mono [OF e1024])
  moreover have "pow2 1024 = 2 ^ 1024" by (simp add: pow2_def)
  ultimately have C: "(2 ^ 1024 :: rat) \<le> 2 ^ 52 * q" by (simp only: pe)
  from C A have "2 ^ 1024 \<le> of_int (round_half_even (r / q)) * q" by (rule order_trans)
  with pos show ?thesis
    by (simp add: round_binary64_def Let_def e_def [symmetric] mx q_def [symmetric])
qed

lemma floor_rat_numeral_div:
  "\<lfloor>numeral a / numeral b :: rat\<rfloor> = numeral a div numeral b"
  by (metis floor_divide_of_int_eq of_int_numeral)

lemma ceiling_rat_numeral_div:
  "\<lceil>numeral a / numeral b :: rat\<rceil> = - (- numeral a div numeral b)"
  by (metis ceiling_divide_eq_div of_int_numeral)


subsection \<open>The orientation expression\<close>

lemma floor_rat_minus_numeral_div:
  "\<lfloor>- (numeral a / numeral b) :: rat\<rfloor> = - numeral a div numeral b"
  by (metis divide_minus_left floor_divide_of_int_eq of_int_neg_numeral of_int_numeral)

lemma float_of_int_small:
  "\<bar>i\<bar> < 2 ^ 53 \<Longrightarrow> float_of_int i = Inr (Fin (of_int i))"
  by (simp add: float_of_int_def round_binary64_of_int)

lemma round_binary64_quarter:
  assumes "\<bar>k\<bar> < 2 ^ 53"
  shows "round_binary64 (of_int k / 4) = Fin (of_int k / 4)"
proof (rule round_binary64_exact [of _ k "- 2"])
  show "(of_int k / 4 :: rat) = of_int k * pow2 (- 2)" by (simp add: pow2_def)
  show "\<bar>k\<bar> < 2 ^ 53" by (rule assms)
  show "(- 1074 :: int) \<le> - 2" by simp
  have "\<bar>of_int k :: rat\<bar> < 2 ^ 53"
    using assms by (metis of_int_abs of_int_less_iff of_int_numeral of_int_power)
  then have "\<bar>of_int k / 4 :: rat\<bar> < 2 ^ 53" by simp
  also have "(2 ^ 53 :: rat) < 2 ^ 1024" by simp
  finally show "\<bar>of_int k / 4 :: rat\<bar> < 2 ^ 1024" .
qed

lemma rat_mod_quarter: "rat_mod (of_int k / 4) 360 = of_int (k mod 1440) / 4"
proof -
  have "(of_int k / 4 / 360 :: rat) = of_int k / of_int 1440" by simp
  then have fl: "\<lfloor>of_int k / 4 / 360 :: rat\<rfloor> = k div 1440"
    by (simp only: floor_divide_of_int_eq)
  have "(of_int k :: rat) = of_int (1440 * (k div 1440) + k mod 1440)"
    by (simp only: mult_div_mod_eq)
  then have "(of_int k :: rat) = 1440 * of_int (k div 1440) + of_int (k mod 1440)"
    by (simp only: of_int_add of_int_mult of_int_numeral)
  then show ?thesis unfolding rat_mod_def fl by (simp add: field_simps)
qed

lemma c_fmod_quarter:
  "c_fmod (of_int k / 4) 360 = (if 0 \<le> k then of_int (k mod 1440) / 4 else - (of_int ((- k) mod 1440) / 4))"
proof (cases "0 \<le> k")
  case True
  then have "c_fmod (of_int k / 4) 360 = rat_mod (of_int k / 4) 360"
    by (simp add: c_fmod_def rat_mod_def)
  with True show ?thesis by (simp add: rat_mod_quarter)
next
  case False
  have "c_fmod (of_int k / 4) 360 = - rat_mod (of_int (- k) / 4) 360"
    using False by (simp add: c_fmod_def rat_mod_def)
  with False show ?thesis by (simp only: rat_mod_quarter) simp
qed

lemma float_rem_quarter:
  "float_rem (Fin (of_int k / 4)) 360 = Fin (of_int (k mod 1440) / 4)"
proof (cases "0 \<le> k")
  case True
  have "0 \<le> k mod 1440" by simp
  then have "\<not> (of_int (k mod 1440) / 4 :: rat) < 0" by simp
  with True show ?thesis by (simp add: float_rem_def c_fmod_quarter Let_def)
next
  case False
  show ?thesis
  proof (cases "k mod 1440 = 0")
    case z: True
    then have "(- k) mod 1440 = 0" by (simp add: zmod_zminus1_eq_if)
    with False z show ?thesis by (simp add: float_rem_def c_fmod_quarter Let_def)
  next
    case nz: False
    then have m: "(- k) mod 1440 = 1440 - k mod 1440" by (simp add: zmod_zminus1_eq_if)
    have lt: "k mod 1440 < 1440" and ge: "0 \<le> k mod 1440" by simp_all
    have neg: "- (of_int ((- k) mod 1440) / 4 :: rat) < 0"
      using lt by (simp add: m)
    have sum: "- (of_int ((- k) mod 1440) / 4 :: rat) + 360 = of_int (k mod 1440) / 4"
      by (simp add: m diff_divide_distrib)
    have "\<bar>k mod 1440\<bar> < 2 ^ 53" using lt ge by simp
    then have "round_binary64 (of_int (k mod 1440) / 4) = Fin (of_int (k mod 1440) / 4)"
      by (rule round_binary64_quarter)
    then have rd: "round_binary64 (- (of_int ((- k) mod 1440) / 4) + 360)
                 = Fin (of_int (k mod 1440) / 4)"
      by (simp only: sum)
    have r: "c_fmod (of_int k / 4) 360 = - (of_int ((- k) mod 1440) / 4)"
      using False by (simp only: c_fmod_quarter if_False)
    show ?thesis
      unfolding float_rem_def by (simp only: pyfloat.case r Let_def neg if_True rd)
  qed
qed

lemma spec_orientation_deg_eq:
  "spec_orientation_deg u = of_int ((360 - 45 * u) mod 1440) / 4"
proof -
  have "(90 - 45 / 4 * of_int u :: rat) = of_int (360 - 45 * u) / 4" by simp
  then show ?thesis unfolding spec_orientation_deg_def by (simp only: rat_mod_quarter)
qed

lemma orientation_deg_exact:
  assumes "\<bar>u\<bar> \<le> 2 ^ 47 + 32"
  shows "orientation_deg u = Inr (Fin (of_int ((360 - 45 * u) mod 1440) / 4))"
proof -
  have u53: "\<bar>u\<bar> < 2 ^ 53" using assms by simp
  have p53: "\<bar>45 * u\<bar> < 2 ^ 53" using assms by (simp add: abs_mult)
  have d53: "\<bar>360 - 45 * u\<bar> < 2 ^ 53" using assms by (simp add: abs_if split: if_splits)
  have conv: "float_of_int u = Inr (Fin (of_int u))" by (rule float_of_int_small [OF u53])
  have "fmul (Fin (45 / 4)) (Fin (of_int u)) = round_binary64 (of_int (45 * u) / 4)" by simp
  also have "\<dots> = Fin (of_int (45 * u) / 4)" by (rule round_binary64_quarter [OF p53])
  finally have prod: "fmul (Fin (45 / 4)) (Fin (of_int u)) = Fin (of_int (45 * u) / 4)" .
  have "fsub (Fin 90) (Fin (of_int (45 * u) / 4))
          = round_binary64 (90 + - (of_int (45 * u) / 4))"
    by (simp only: fsub_def fneg_def pyfloat.case fadd.simps)
  also have "\<dots> = round_binary64 (of_int (360 - 45 * u) / 4)"
    by (rule arg_cong [where f = round_binary64]) (simp add: diff_divide_distrib)
  also have "\<dots> = Fin (of_int (360 - 45 * u) / 4)" by (rule round_binary64_quarter [OF d53])
  finally have diff: "fsub (Fin 90) (Fin (of_int (45 * u) / 4)) = Fin (of_int (360 - 45 * u) / 4)" .
  show ?thesis
    unfolding orientation_deg_def conv by (simp only: sum.case prod diff float_rem_quarter)
qed

lemma orientation_deg_zero: "orientation_deg 0 = Inr (Fin 90)"
  using orientation_deg_exact [of 0] by simp

lemma orientation_deg_eight: "orientation_deg 8 = Inr (Fin 0)"
  using orientation_deg_exact [of 8] by simp

text \<open>
  C3. For every integer direction unit \<open>u\<close> with \<open>\<bar>u\<bar> \<le> 2^47\<close>, the orientation that
  \<open>convert_min_to_txt\<close> computes is exactly \<open>(90 - 11.25 u) mod 360\<close> degrees; \<open>u = 0\<close>
  gives 90, \<open>u = 8\<close> gives 0, and \<open>u\<close> and \<open>u + 32\<close> give the same angle. Within the
  bound every intermediate value is a multiple of \<open>1/4\<close> that binary64 represents.
\<close>

theorem orientation_quantization:
  assumes "\<bar>u\<bar> \<le> 2 ^ 47"
  shows "orientation_deg u = Inr (Fin (spec_orientation_deg u))
         \<and> orientation_deg 0 = Inr (Fin 90)
         \<and> orientation_deg 8 = Inr (Fin 0)
         \<and> orientation_deg (u + 32) = orientation_deg u"
proof -
  from assms have b: "\<bar>u\<bar> \<le> 2 ^ 47 + 32" and b32: "\<bar>u + 32\<bar> \<le> 2 ^ 47 + 32" by simp_all
  have "360 - 45 * (u + 32) = 360 - 45 * u - 1440" by simp
  then have per: "(360 - 45 * (u + 32)) mod 1440 = (360 - 45 * u) mod 1440"
    by (simp only: minus_mod_self2)
  have 1: "orientation_deg u = Inr (Fin (spec_orientation_deg u))"
    by (simp only: orientation_deg_exact [OF b] spec_orientation_deg_eq)
  have 2: "orientation_deg 0 = Inr (Fin 90)"
    using orientation_deg_exact [of 0] by simp
  have 3: "orientation_deg 8 = Inr (Fin 0)"
    using orientation_deg_exact [of 8] by simp
  have 4: "orientation_deg (u + 32) = orientation_deg u"
    by (simp only: orientation_deg_exact [OF b] orientation_deg_exact [OF b32] per)
  from 1 2 3 4 show ?thesis by (intro conjI)
qed

theorem orientation_quantization_witness:
  "\<bar>9 :: int\<bar> \<le> 2 ^ 47
   \<and> orientation_deg 9 = Inr (Fin (1395 / 4))
   \<and> spec_orientation_deg 9 = 1395 / 4
   \<and> orientation_deg (9 + 32) = orientation_deg 9"
proof -
  have h: "\<bar>9 :: int\<bar> \<le> 2 ^ 47" by simp
  have v: "spec_orientation_deg 9 = 1395 / 4"
    by (simp add: spec_orientation_deg_eq)
  show ?thesis using orientation_quantization [OF h] h v by simp
qed

text \<open>
  Beyond the bound the float product is rounded: for \<open>u = 2^52 + 16\<close> the code yields
  272 degrees where \<open>(90 - 11.25 u) mod 360\<close> is 270, and \<open>u + 32\<close> yields 264.
\<close>

theorem orientation_quantization_counterexample:
  "orientation_deg (2 ^ 52 + 16) = Inr (Fin 272)
   \<and> spec_orientation_deg (2 ^ 52 + 16) = 270
   \<and> orientation_deg (2 ^ 52 + 16 + 32) = Inr (Fin 264)"
proof -
  have i1: "round_binary64 4503599627370512 = Fin 4503599627370512"
    using round_binary64_of_int [of 4503599627370512] by simp
  have i2: "round_binary64 4503599627370544 = Fin 4503599627370544"
    using round_binary64_of_int [of 4503599627370544] by simp
  have p1: "round_binary64 50665495807918260 = Fin 50665495807918256"
    by (subst round_binary64_pos [of 55])
      (simp_all add: pow2_def round_half_even_def Let_def floor_rat_numeral_div)
  have p2: "round_binary64 50665495807918620 = Fin 50665495807918624"
    by (subst round_binary64_pos [of 55])
      (simp_all add: pow2_def round_half_even_def Let_def floor_rat_numeral_div)
  have "round_binary64 50665495807918166 = Fin 50665495807918168"
    by (subst round_binary64_pos [of 55])
      (simp_all add: pow2_def round_half_even_def Let_def floor_rat_numeral_div)
  then have d1: "round_binary64 (- 50665495807918166) = Fin (- 50665495807918168)"
    by (simp add: round_binary64_minus fneg_def)
  have "round_binary64 50665495807918534 = Fin 50665495807918536"
    by (subst round_binary64_pos [of 55])
      (simp_all add: pow2_def round_half_even_def Let_def floor_rat_numeral_div)
  then have d2: "round_binary64 (- 50665495807918534) = Fin (- 50665495807918536)"
    by (simp add: round_binary64_minus fneg_def)
  have r1: "round_binary64 272 = Fin 272" using round_binary64_of_int [of 272] by simp
  have r2: "round_binary64 264 = Fin 264" using round_binary64_of_int [of 264] by simp
  have a: "orientation_deg (2 ^ 52 + 16) = Inr (Fin 272)"
    by (simp add: orientation_deg_def float_of_int_def fsub_def fneg_def float_rem_def
        c_fmod_def Let_def floor_rat_numeral_div floor_rat_minus_numeral_div i1 p1 d1 r1)
  have b: "spec_orientation_deg (2 ^ 52 + 16) = 270"
    by (simp add: spec_orientation_deg_eq)
  have c: "orientation_deg (2 ^ 52 + 16 + 32) = Inr (Fin 264)"
    by (simp add: orientation_deg_def float_of_int_def fsub_def fneg_def float_rem_def
        c_fmod_def Let_def floor_rat_numeral_div floor_rat_minus_numeral_div i2 p2 d2 r2)
  from a b c show ?thesis by (intro conjI)
qed

subsection \<open>Conversion of one detector file\<close>

lemma convert_lines_no_record:
  "filter (yields_record qt) ls = [] \<Longrightarrow>
   convert_lines qt ls = Inr [] \<or> (\<exists>e. convert_lines qt ls = Inl e)"
proof (induction ls)
  case Nil
  show ?case by simp
next
  case (Cons l ls)
  from Cons.prems have no: "\<not> yields_record qt l" and rest: "filter (yields_record qt) ls = []"
    by (auto split: if_splits)
  from no show ?case
    using Cons.IH [OF rest]
    by (auto simp: yields_record_def split: sum.splits option.splits)
qed

text \<open>
  C6. When no line after the three header lines of a detector file yields a record
  (none survives parsing and the quality filter), \<open>convert_min_to_txt\<close> leaves the file
  system as it was, so no output file is written, not even an empty one, and it returns
  \<open>None\<close>.
\<close>

theorem convert_min_to_txt_empty_result:
  assumes "files min_file_path = Some content"
    and "filter (yields_record quality_threshold) (drop 3 (readlines content)) = []"
  shows "convert_min_to_txt files min_file_path output_dir quality_threshold = (files, None)"
  using convert_lines_no_record [OF assms(2)] assms(1)
  by (auto simp: convert_min_to_txt_def Let_def)

theorem convert_min_to_txt_empty_result_witness:
  "[''a.min'' \<mapsto> ''h1\<newline>h2\<newline>h3\<newline>1:2:3\<newline>\<newline>1:a,b:0:0.5:BIF\<newline>''] ''a.min''
     = Some ''h1\<newline>h2\<newline>h3\<newline>1:2:3\<newline>\<newline>1:a,b:0:0.5:BIF\<newline>''
   \<and> filter (yields_record (Fin 0))
        (drop 3 (readlines ''h1\<newline>h2\<newline>h3\<newline>1:2:3\<newline>\<newline>1:a,b:0:0.5:BIF\<newline>'')) = []
   \<and> convert_min_to_txt
         [''a.min'' \<mapsto> ''h1\<newline>h2\<newline>h3\<newline>1:2:3\<newline>\<newline>1:a,b:0:0.5:BIF\<newline>''] ''a.min'' ''out'' (Fin 0)
       = ([''a.min'' \<mapsto> ''h1\<newline>h2\<newline>h3\<newline>1:2:3\<newline>\<newline>1:a,b:0:0.5:BIF\<newline>''], None)"
proof -
  have present:
    "[''a.min'' \<mapsto> ''h1\<newline>h2\<newline>h3\<newline>1:2:3\<newline>\<newline>1:a,b:0:0.5:BIF\<newline>''] ''a.min''
       = Some ''h1\<newline>h2\<newline>h3\<newline>1:2:3\<newline>\<newline>1:a,b:0:0.5:BIF\<newline>''"
    by simp
  have none_survives:
    "filter (yields_record (Fin 0))
       (drop 3 (readlines ''h1\<newline>h2\<newline>h3\<newline>1:2:3\<newline>\<newline>1:a,b:0:0.5:BIF\<newline>'')) = []"
    by code_simp
  show ?thesis
    using convert_min_to_txt_empty_result
        [of "[''a.min'' \<mapsto> ''h1\<newline>h2\<newline>h3\<newline>1:2:3\<newline>\<newline>1:a,b:0:0.5:BIF\<newline>'']" "''a.min''"
          "''h1\<newline>h2\<newline>h3\<newline>1:2:3\<newline>\<newline>1:a,b:0:0.5:BIF\<newline>''" "Fin 0" "''out''"]
      present none_survives
    by simp
qed

text \<open>
  C4. The detector file of the end-to-end scenario: three header lines and the records
  \<open>id:10,20:0:TYP_BIF:0.9\<close> and \<open>id:30,40:8:TYP_OTH:0.9\<close>, in the order of fields that
  the comment at line 173 describes (type before quality). The code reads the quality
  from the fourth field and the type from the fifth, so \<open>float\<close> raises \<open>ValueError\<close>
  on \<open>TYP_BIF\<close> and \<open>TYP_OTH\<close>, both records are skipped, no file is written and the
  result is \<open>None\<close>, where the scenario expects two canonical lines.
\<close>

theorem spec_scenario_not_converted:
  "convert_min_to_txt
     [''a.min'' \<mapsto> ''h1\<newline>h2\<newline>h3\<newline>id:10,20:0:TYP_BIF:0.9\<newline>id:30,40:8:TYP_OTH:0.9\<newline>'']
     ''a.min'' ''out'' (Fin 0)
   = ([''a.min'' \<mapsto> ''h1\<newline>h2\<newline>h3\<newline>id:10,20:0:TYP_BIF:0.9\<newline>id:30,40:8:TYP_OTH:0.9\<newline>''], None)"
proof -
  have ls: "drop 3 (readlines ''h1\<newline>h2\<newline>h3\<newline>id:10,20:0:TYP_BIF:0.9\<newline>id:30,40:8:TYP_OTH:0.9\<newline>'')
              = [''id:10,20:0:TYP_BIF:0.9\<newline>'', ''id:30,40:8:TYP_OTH:0.9\<newline>'']"
    by code_simp
  have s1: "strip ''id:10,20:0:TYP_BIF:0.9\<newline>'' = ''id:10,20:0:TYP_BIF:0.9''" by code_simp
  have s2: "strip ''id:30,40:8:TYP_OTH:0.9\<newline>'' = ''id:30,40:8:TYP_OTH:0.9''" by code_simp
  have f1: "split_on CHR '':'' ''id:10,20:0:TYP_BIF:0.9''
              = [''id'', ''10,20'', ''0'', ''TYP_BIF'', ''0.9'']" by code_simp
  have f2: "split_on CHR '':'' ''id:30,40:8:TYP_OTH:0.9''
              = [''id'', ''30,40'', ''8'', ''TYP_OTH'', ''0.9'']" by code_simp
  have xy1: "py_int ''10'' = Some 10" "py_int ''20'' = Some 20" by code_simp+
  have xy2: "py_int ''30'' = Some 30" "py_int ''40'' = Some 40" by code_simp+
  have u1: "py_int ''0'' = Some 0" by code_simp
  have u2: "py_int ''8'' = Some 8" by code_simp
  have q1: "py_float ''TYP_BIF'' = None" by code_simp
  have q2: "py_float ''TYP_OTH'' = None" by code_simp
  have l1: "convert_line (Fin 0) ''id:10,20:0:TYP_BIF:0.9\<newline>'' = Inl ValueError"
    by (simp add: convert_line_def Let_def s1 f1 xy1 u1 orientation_deg_zero q1)
  have l2: "convert_line (Fin 0) ''id:30,40:8:TYP_OTH:0.9\<newline>'' = Inl ValueError"
    by (simp add: convert_line_def Let_def s2 f2 xy2 u2 orientation_deg_eight q2)
  show ?thesis
    by (simp add: convert_min_to_txt_def ls l1 l2)
qed

subsection \<open>A line that ends the conversion of its file\<close>

lemma float_of_int_overflow: "2 ^ 1024 \<le> i \<Longrightarrow> float_of_int i = Inl OverflowError"
proof -
  assume "2 ^ 1024 \<le> i"
  then have "(of_int (2 ^ 1024) :: rat) \<le> of_int i" by (simp only: of_int_le_iff)
  then have "(2 ^ 1024 :: rat) \<le> of_int i" by simp
  then have "round_binary64 (of_int i) = PInf" by (rule round_binary64_overflow)
  then show ?thesis by (simp add: float_of_int_def)
qed

lemma strip_ascii_id:
  assumes "s \<noteq> []" and "\<not> is_ascii_space (hd s)" and "\<not> is_ascii_space (last s)"
  shows "strip_ascii s = s"
proof -
  from assms(1,2) have 1: "dropWhile is_ascii_space s = s" by (cases s) auto
  from assms(1) obtain x xs where r: "rev s = x # xs" by (cases "rev s") auto
  from assms(1) have "hd (rev s) = last s" by (simp add: hd_rev)
  with r have "x = last s" by simp
  with assms(3) have "\<not> is_ascii_space x" by simp
  then have "dropWhile is_ascii_space (x # xs) = x # xs" by simp
  then have 2: "dropWhile is_ascii_space (rev s) = rev s" by (simp only: r)
  show ?thesis by (simp add: strip_ascii_def 1 2)
qed

lemma digit_chars_zeros:
  "digit_chars True (replicate n (CHR ''0'')) = Some (replicate n (CHR ''0''))"
  by (induction n) (simp_all add: is_digit_def)

lemma digits_value_zeros:
  "foldl (\<lambda>acc c. 10 * acc + digit_val c) a (replicate n (CHR ''0'')) = a * 10 ^ n"
  by (induction n arbitrary: a) (simp_all add: digit_val_def)

lemma py_int_power_of_ten:
  assumes "0 < n"
  shows "py_int (CHR ''1'' # replicate n (CHR ''0'')) = Some (10 ^ n)"
proof -
  have "last (CHR ''1'' # replicate n (CHR ''0'')) = CHR ''0''" using assms by simp
  then have st: "strip_ascii (CHR ''1'' # replicate n (CHR ''0'')) = CHR ''1'' # replicate n (CHR ''0'')"
    by (intro strip_ascii_id) (simp_all add: is_ascii_space_def)
  have dc: "digit_chars False (CHR ''1'' # replicate n (CHR ''0''))
              = Some (CHR ''1'' # replicate n (CHR ''0''))"
    by (simp add: is_digit_def digit_chars_zeros)
  have d1: "digit_val (CHR ''1'') = 1" by (simp add: digit_val_def)
  have dv: "digits_value (CHR ''1'' # replicate n (CHR ''0'')) = 10 ^ n"
    by (simp add: digits_value_def d1 digits_value_zeros)
  show ?thesis
    unfolding py_int_def st by (simp add: digit_part_def dc dv del: digit_chars.simps)
qed

text \<open>
  C8. A record line whose quality field is not numeric and whose direction field is an
  integer of 310 digits: \<open>int\<close> accepts the direction, the product \<open>11.25 * direction_unit\<close>
  raises \<open>OverflowError\<close> before the quality is read, and the handler of the line
  catches only \<open>ValueError\<close> and \<open>IndexError\<close>. The exception reaches the handler of the
  whole function: no file is written and the result is \<open>None\<close>, although the next line
  is a well-formed record.
\<close>

theorem overflowing_line_aborts_file:
  "py_float ''abc'' = None
   \<and> convert_line (Fin 0)
         (''1:10,20:'' @ CHR ''1'' # replicate 309 (CHR ''0'') @ '':abc:BIF\<newline>'')
       = Inl OverflowError
   \<and> convert_min_to_txt
         [''a.min'' \<mapsto> ''h1\<newline>h2\<newline>h3\<newline>1:10,20:'' @ CHR ''1'' # replicate 309 (CHR ''0'')
                        @ '':abc:BIF\<newline>1:10,20:0:0.9:BIF\<newline>'']
         ''a.min'' ''out'' (Fin 0)
       = ([''a.min'' \<mapsto> ''h1\<newline>h2\<newline>h3\<newline>1:10,20:'' @ CHR ''1'' # replicate 309 (CHR ''0'')
                        @ '':abc:BIF\<newline>1:10,20:0:0.9:BIF\<newline>''], None)"
proof (intro conjI)
  show q: "py_float ''abc'' = None" by code_simp
  have s1: "strip (''1:10,20:'' @ CHR ''1'' # replicate 309 (CHR ''0'') @ '':abc:BIF\<newline>'')
              = ''1:10,20:'' @ CHR ''1'' # replicate 309 (CHR ''0'') @ '':abc:BIF''"
    by code_simp
  have f1: "split_on CHR '':'' (''1:10,20:'' @ CHR ''1'' # replicate 309 (CHR ''0'') @ '':abc:BIF'')
              = [''1'', ''10,20'', CHR ''1'' # replicate 309 (CHR ''0''), ''abc'', ''BIF'']"
    by code_simp
  have xy: "py_int ''10'' = Some 10" "py_int ''20'' = Some 20" by code_simp+
  have u: "py_int (CHR ''1'' # replicate 309 (CHR ''0'')) = Some (10 ^ 309)"
    by (rule py_int_power_of_ten) simp
  have "(2 ^ 1024 :: int) \<le> 10 ^ 309" by simp
  then have ov: "float_of_int (10 ^ 309) = Inl OverflowError" by (rule float_of_int_overflow)
  have od: "orientation_deg (10 ^ 309) = Inl OverflowError"
    by (simp only: orientation_deg_def ov sum.case)
  show l1: "convert_line (Fin 0)
         (''1:10,20:'' @ CHR ''1'' # replicate 309 (CHR ''0'') @ '':abc:BIF\<newline>'')
       = Inl OverflowError"
    using od unfolding convert_line_def Let_def s1 f1
    by (simp add: xy u del: replicate.simps replicate_Suc)
  have ls: "drop 3 (readlines (''h1\<newline>h2\<newline>h3\<newline>1:10,20:'' @ CHR ''1'' # replicate 309 (CHR ''0'')
                        @ '':abc:BIF\<newline>1:10,20:0:0.9:BIF\<newline>''))
            = [''1:10,20:'' @ CHR ''1'' # replicate 309 (CHR ''0'') @ '':abc:BIF\<newline>'',
               ''1:10,20:0:0.9:BIF\<newline>'']"
    by code_simp
  show "convert_min_to_txt
         [''a.min'' \<mapsto> ''h1\<newline>h2\<newline>h3\<newline>1:10,20:'' @ CHR ''1'' # replicate 309 (CHR ''0'')
                        @ '':abc:BIF\<newline>1:10,20:0:0.9:BIF\<newline>'']
         ''a.min'' ''out'' (Fin 0)
       = ([''a.min'' \<mapsto> ''h1\<newline>h2\<newline>h3\<newline>1:10,20:'' @ CHR ''1'' # replicate 309 (CHR ''0'')
                        @ '':abc:BIF\<newline>1:10,20:0:0.9:BIF\<newline>''], None)"
    unfolding convert_min_to_txt_def Let_def
    by (simp only: fun_upd_same option.case ls convert_lines.simps l1 sum.case)
      (simp del: replicate.simps replicate_Suc)
qed

subsection \<open>Writing and reading back a canonical file\<close>

lemma round_binary64_nine_tenths:
  "round_binary64 (9 / 10) = Fin (8106479329266893 / 9007199254740992)"
  by (subst round_binary64_pos [of "- 1"])
    (simp_all add: pow2_def round_half_even_def Let_def floor_rat_numeral_div)

lemma py_float_nine_tenths:
  "py_float ''0.9'' = Some (Fin (8106479329266893 / 9007199254740992))"
proof -
  have d: "decimal_literal ''0.9'' = Some (9 / 10)" by code_simp
  show ?thesis
    by (simp add: py_float_def strip_ascii_def is_ascii_space_def lower_def lower_char_def d
        round_binary64_nine_tenths)
qed

lemma np_float_small_ints:
  "np_float ''1'' = Some (Fin 1)" "np_float ''10'' = Some (Fin 10)" "np_float ''20'' = Some (Fin 20)"
proof -
  have d: "decimal_literal ''1'' = Some 1" "decimal_literal ''10'' = Some 10"
    "decimal_literal ''20'' = Some 20" by code_simp+
  have r: "round_binary64 1 = Fin 1" "round_binary64 10 = Fin 10" "round_binary64 20 = Fin 20"
    using round_binary64_of_int [of 1] round_binary64_of_int [of 10] round_binary64_of_int [of 20]
    by simp_all
  show "np_float ''1'' = Some (Fin 1)" "np_float ''10'' = Some (Fin 10)"
    "np_float ''20'' = Some (Fin 20)"
    by (simp_all add: np_float_def py_float_def strip_ascii_def is_ascii_space_def lower_def
        lower_char_def d r)
qed

text \<open>
  C1. A detector file with one record, in the order of fields that the code reads, is
  converted: the record \<open>1 10 20 90.0\<close> is written followed by a backslash and the
  letter \<open>n\<close> (line 206), not by a line feed. \<open>parse_minutiae_file\<close> on the written file
  finds the field \<open>90.0\<close> with these two characters appended, which is no float, and
  returns the empty table: type, x, y and orientation are not recovered.
\<close>

theorem round_trip_fails:
  "convert_min_to_txt [''a.min'' \<mapsto> ''h1\<newline>h2\<newline>h3\<newline>1:10,20:0:0.9:BIF\<newline>''] ''a.min'' ''out'' (Fin 0)
     = ([''a.min'' \<mapsto> ''h1\<newline>h2\<newline>h3\<newline>1:10,20:0:0.9:BIF\<newline>'',
         ''out/a.txt'' \<mapsto> written_record ''1 10 20 90.0''], Some ''out/a.txt'')
   \<and> parse_minutiae_file
         [''a.min'' \<mapsto> ''h1\<newline>h2\<newline>h3\<newline>1:10,20:0:0.9:BIF\<newline>'',
          ''out/a.txt'' \<mapsto> written_record ''1 10 20 90.0''] ''out/a.txt''
       = Arr2 0 4 []"
proof (intro conjI)
  have ls: "drop 3 (readlines ''h1\<newline>h2\<newline>h3\<newline>1:10,20:0:0.9:BIF\<newline>'') = [''1:10,20:0:0.9:BIF\<newline>'']"
    by code_simp
  have s1: "strip ''1:10,20:0:0.9:BIF\<newline>'' = ''1:10,20:0:0.9:BIF''" by code_simp
  have f1: "split_on CHR '':'' ''1:10,20:0:0.9:BIF'' = [''1'', ''10,20'', ''0'', ''0.9'', ''BIF'']"
    by code_simp
  have xy: "py_int ''10'' = Some 10" "py_int ''20'' = Some 20" "py_int ''0'' = Some 0"
    by code_simp+
  have ty: "contains (strip ''BIF'') ''BIF''" by code_simp
  have st: "str_int 1 = ''1''" "str_int 10 = ''10''" "str_int 20 = ''20''" by code_simp+
  have fr: "float_repr (Fin 90) = ''90.0''"
    by (simp add: float_repr_def Let_def) code_simp
  have l1: "convert_line (Fin 0) ''1:10,20:0:0.9:BIF\<newline>'' = Inr (Some ''1 10 20 90.0'')"
    by (simp add: convert_line_def Let_def s1 f1 xy orientation_deg_zero py_float_nine_tenths
        ty st fr)
  have op: "path_join ''out'' (fst (splitext (basename ''a.min'')) @ ''.txt'') = ''out/a.txt''"
    by code_simp
  show "convert_min_to_txt [''a.min'' \<mapsto> ''h1\<newline>h2\<newline>h3\<newline>1:10,20:0:0.9:BIF\<newline>''] ''a.min'' ''out'' (Fin 0)
     = ([''a.min'' \<mapsto> ''h1\<newline>h2\<newline>h3\<newline>1:10,20:0:0.9:BIF\<newline>'',
         ''out/a.txt'' \<mapsto> written_record ''1 10 20 90.0''], Some ''out/a.txt'')"
    by (simp add: convert_min_to_txt_def Let_def ls l1 op)
  have rows: "filter (\<lambda>r. r \<noteq> []) (map loadtxt_row (readlines (written_record ''1 10 20 90.0'')))
                = [[''1'', ''10'', ''20'', ''90.0'' @ [backslash, CHR ''n'']]]"
    by code_simp
  have "np_float (''90.0'' @ [backslash, CHR ''n'']) = None" by code_simp
  then have bad: "np_float [CHR ''9'', CHR ''0'', CHR ''.'', CHR ''0'', backslash, CHR ''n''] = None"
    by simp
  have "loadtxt [''a.min'' \<mapsto> ''h1\<newline>h2\<newline>h3\<newline>1:10,20:0:0.9:BIF\<newline>'',
          ''out/a.txt'' \<mapsto> written_record ''1 10 20 90.0''] ''out/a.txt'' = Inl ValueError"
    by (simp add: loadtxt_def rows np_float_small_ints bad)
  then show "parse_minutiae_file
         [''a.min'' \<mapsto> ''h1\<newline>h2\<newline>h3\<newline>1:10,20:0:0.9:BIF\<newline>'',
          ''out/a.txt'' \<mapsto> written_record ''1 10 20 90.0''] ''out/a.txt''
       = Arr2 0 4 []"
    by (simp add: parse_minutiae_file_def empty_table_def)
qed

subsection \<open>Minimum point count after batch conversion\<close>

lemma endswith_append: "endswith b suf \<Longrightarrow> endswith (x @ b) suf"
  by (auto simp: endswith_def)

lemma endswith_path_join:
  assumes "endswith b suf"
  shows "endswith (path_join a b) suf"
proof -
  have 1: "endswith (a @ b) suf" by (rule endswith_append [OF assms])
  have "endswith ((a @ ''/'') @ b) suf" by (rule endswith_append [OF assms])
  then have 2: "endswith (a @ ''/'' @ b) suf" by simp
  from assms 1 2 show ?thesis by (simp add: path_join_def)
qed

lemma endswith_self_append: "endswith (x @ suf) suf"
  by (simp add: endswith_def)

lemma endswith_same_length: "endswith s a \<Longrightarrow> endswith s b \<Longrightarrow> length a = length b \<Longrightarrow> a = b"
  by (auto simp: endswith_def)

lemma path_join_nonempty: "b \<noteq> [] \<Longrightarrow> path_join a b \<noteq> []"
  by (auto simp: path_join_def)

lemma txt_path_props:
  "endswith (path_join out (stem @ ''.txt'')) ''.txt''"
  "path_join out (stem @ ''.txt'') \<noteq> []"
proof -
  show "endswith (path_join out (stem @ ''.txt'')) ''.txt''"
    by (rule endswith_path_join [OF endswith_self_append])
  show "path_join out (stem @ ''.txt'') \<noteq> []"
    by (rule path_join_nonempty) simp
qed

lemma txt_not_min: "endswith p ''.txt'' \<Longrightarrow> \<not> endswith p ''.min''"
  using endswith_same_length [of p "''.txt''" "''.min''"] by auto

lemma convert_min_to_txt_frame:
  assumes "convert_min_to_txt F m out qt = (F1, r)"
  shows "(r = None \<and> F1 = F)
         \<or> (\<exists>tf c. r = Some tf \<and> F1 = F(tf \<mapsto> c) \<and> tf \<noteq> [] \<and> endswith tf ''.txt'')"
  using assms txt_path_props [of out "fst (splitext (basename m))"]
  by (auto simp: convert_min_to_txt_def Let_def split: option.splits sum.splits if_splits)



lemma convert_files_step:
  assumes rm: "\<forall>f p. env_remove env f p = Inr (f(p := None))"
  shows "\<exists>F2 s2. convert_files env F out qt n (m # ms) s t = convert_files env F2 out qt n ms s2 (t + 1)
     \<and> (\<forall>p. F2 p = F p \<or> has_enough n F2 p)
     \<and> (\<forall>p. endswith p ''.min'' \<longrightarrow> F2 p = F p)
     \<and> (\<forall>tf. snd (convert_min_to_txt F m out qt) = Some tf \<longrightarrow> has_enough n F2 tf)"
proof -
  obtain F1 r where step: "convert_min_to_txt F m out qt = (F1, r)"
    by (cases "convert_min_to_txt F m out qt")
  from convert_min_to_txt_frame [OF step] show ?thesis
  proof (elim disjE conjE exE)
    assume "r = None" "F1 = F"
    with step show ?thesis by (intro exI [of _ F] exI [of _ s]) simp
  next
    fix tf c
    assume r: "r = Some tf" and F1: "F1 = F(tf \<mapsto> c)" and ne: "tf \<noteq> []"
      and ext: "endswith tf ''.txt''"
    have nm: "\<And>p. endswith p ''.min'' \<Longrightarrow> p \<noteq> tf" using txt_not_min [OF ext] by auto
    show ?thesis
    proof (cases "n \<le> int (line_count_of c)")
      case True
      with step r F1 ne
      have "convert_files env F out qt n (m # ms) s t = convert_files env F1 out qt n ms (s + 1) (t + 1)"
        by simp
      moreover have "\<forall>p. F1 p = F p \<or> has_enough n F1 p"
        using True by (auto simp: F1 has_enough_def)
      moreover have "\<forall>p. endswith p ''.min'' \<longrightarrow> F1 p = F p"
        using nm by (auto simp: F1)
      moreover have "\<forall>tf'. snd (convert_min_to_txt F m out qt) = Some tf' \<longrightarrow> has_enough n F1 tf'"
        using True step r by (auto simp: F1 has_enough_def)
      ultimately show ?thesis by (intro exI [of _ F1] exI [of _ "s + 1"] conjI)
    next
      case False
      with step r F1 ne
      have "convert_files env F out qt n (m # ms) s t
              = convert_files env (F1(tf := None)) out qt n ms s (t + 1)"
        by (simp add: rm)
      moreover have "\<forall>p. (F1(tf := None)) p = F p \<or> has_enough n (F1(tf := None)) p"
        by (auto simp: F1 has_enough_def)
      moreover have "\<forall>p. endswith p ''.min'' \<longrightarrow> (F1(tf := None)) p = F p"
        using nm by (auto simp: F1)
      moreover have "\<forall>tf'. snd (convert_min_to_txt F m out qt) = Some tf'
                       \<longrightarrow> has_enough n (F1(tf := None)) tf'"
        using step r by (auto simp: F1 has_enough_def)
      ultimately show ?thesis by (intro exI [of _ "F1(tf := None)"] exI [of _ s] conjI)
    qed
  qed
qed

lemma convert_files_stepE:
  assumes "\<forall>f p. env_remove env f p = Inr (f(p := None))"
  obtains F2 s2
  where "convert_files env F out qt n (m # ms) s t = convert_files env F2 out qt n ms s2 (t + 1)"
    and "\<forall>p. F2 p = F p \<or> has_enough n F2 p"
    and "\<forall>p. endswith p ''.min'' \<longrightarrow> F2 p = F p"
    and "\<forall>tf. snd (convert_min_to_txt F m out qt) = Some tf \<longrightarrow> has_enough n F2 tf"
  using convert_files_step [OF assms, of F out qt n m ms s t] by (elim exE conjE) (rule that)


lemma convert_files_sources_kept:
  assumes rm: "\<forall>f p. env_remove env f p = Inr (f(p := None))"
  shows "convert_files env F out qt n ms s t = (F', s', t') \<Longrightarrow> endswith p ''.min'' \<Longrightarrow> F' p = F p"
proof (induction ms arbitrary: F s t)
  case Nil
  then show ?case by simp
next
  case (Cons m ms)
  obtain F2 s2 where eq: "convert_files env F out qt n (m # ms) s t = convert_files env F2 out qt n ms s2 (t + 1)"
    and ch: "\<forall>p. F2 p = F p \<or> has_enough n F2 p"
    and kp: "\<forall>p. endswith p ''.min'' \<longrightarrow> F2 p = F p"
    and en: "\<forall>tf. snd (convert_min_to_txt F m out qt) = Some tf \<longrightarrow> has_enough n F2 tf"
    by (rule convert_files_stepE [OF rm, of F out qt n m ms s t])
  from Cons.prems(1) eq have "convert_files env F2 out qt n ms s2 (t + 1) = (F', s', t')" by simp
  from Cons.IH [OF this Cons.prems(2)] kp Cons.prems(2) show ?case by simp
qed







subsection \<open>Loading a canonical minutiae file\<close>



subsection \<open>Template creation from a file\<close>

text \<open>
  C7. When the table that \<open>parse_minutiae_file\<close> loads from a minutiae file has zero
  rows, \<open>create_template_from_file\<close> returns \<open>None\<close>: the renderer is not called and no
  raster is produced.
\<close>

theorem create_template_from_file_empty:
  assumes "len_array (parse_minutiae_file files minutiae_file) = Some 0"
  shows "create_template_from_file render files minutiae_file target_size orig_size
           include_singular = None"
  using assms by (simp add: create_template_from_file_def)

theorem create_template_from_file_empty_witness:
  "len_array (parse_minutiae_file [''x.txt'' \<mapsto> ''# no minutiae\<newline>''] ''x.txt'') = Some 0
   \<and> create_template_from_file (\<lambda>m orig target incl. Some (0::nat))
         [''x.txt'' \<mapsto> ''# no minutiae\<newline>''] ''x.txt'' (512, 512) None False = None"
proof -
  have empty:
    "len_array (parse_minutiae_file [''x.txt'' \<mapsto> ''# no minutiae\<newline>''] ''x.txt'') = Some 0"
    by code_simp
  show ?thesis
    using create_template_from_file_empty
        [of "[''x.txt'' \<mapsto> ''# no minutiae\<newline>'']" "''x.txt''"
          "\<lambda>m orig target incl. Some (0::nat)" "(512, 512)" None False] empty
    by simp
qed

subsection \<open>Counters of the batch operations\<close>









end
